theory Spec2Isabelle
  imports Complex_Main "HOL-Library.AList" "HOL-Library.Multiset"
begin

section \<open>Values shared by both modules\<close>

text \<open>
  Python exceptions are values.  \<open>ValueError\<close> carries its message; the bare
  \<^verbatim>\<open>raise ValueError\<close> of the mixture constructor carries the empty message.
\<close>

datatype error =
    ValueError string
  | KeyError string
  | IndexError
  | TypeError
  | AttributeError
  | RuntimeError

text \<open>
  A tensor is a number (a 0-dim tensor) or a sequence of tensors along its leading
  axis.  Entries are real numbers: the development idealises floating point.
\<close>

datatype tensor = Num real | Arr "tensor list"

text \<open>A Python dict with string keys: insertion ordered, keys distinct.\<close>

type_synonym xdict = "(string \<times> tensor) list"

text \<open>\<^verbatim>\<open>v[t]\<close> with \<open>t \<ge> 0\<close>: a 0-dim tensor cannot be indexed, and an index past the
  leading axis raises.\<close>

fun tensor_index :: "tensor \<Rightarrow> nat \<Rightarrow> error + tensor" where
  "tensor_index (Num r) t = Inl IndexError"
| "tensor_index (Arr ts) t = (if t < length ts then Inr (ts ! t) else Inl IndexError)"

text \<open>\<^verbatim>\<open>x.update(y)\<close>: every item of \<open>y\<close>, in order, is stored into \<open>x\<close>; an existing key
  keeps its position, a new key goes to the end.\<close>

definition dict_update :: "xdict \<Rightarrow> xdict \<Rightarrow> xdict" where
  "dict_update x y = fold (\<lambda>(k, v). AList.update k v) y x"

text \<open>
  Modelled from the spec: \<^verbatim>\<open>get_dict_values(dicts, keys, return_dict=True)\<close> of
  \<^verbatim>\<open>pixyz.utils\<close>, which both modules import.  It splits out the entries
  of \<open>dicts\<close> named by \<open>keys\<close>: the dict of the items \<^verbatim>\<open>(key, dicts[key])\<close> for the keys,
  in order, that \<open>dicts\<close> has; a key that \<open>dicts\<close> lacks contributes nothing.
\<close>

definition get_dict_values :: "xdict \<Rightarrow> string list \<Rightarrow> xdict" where
  "get_dict_values dicts keys =
     fold (\<lambda>key d. case map_of dicts key of None \<Rightarrow> d | Some v \<Rightarrow> AList.update key v d) keys []"

section \<open>Auto-regressive losses (\<^verbatim>\<open>pixyz/losses/autoregressive.py\<close>)\<close>

text \<open>
  The \<open>Loss\<close> collaborator: its declared inputs and its \<open>estimate\<close>, which yields a
  scalar or raises.
\<close>

record loss =
  loss_input_var :: "string list"
  loss_estimate :: "xdict \<Rightarrow> error + real"

text \<open>What \<open>estimate\<close> of an auto-regressive loss returns: the scalar, or the pair of
  the scalar and the state dict.\<close>

datatype estimate_result = Loss real | LossParams real xdict

record arloss =
  last_loss :: "loss option"
  step_loss :: "loss option"
  max_iter :: int
  step_fn :: "nat \<Rightarrow> xdict \<Rightarrow> error + xdict"
  initial_var :: "string list option"
  return_params :: bool
  input_var :: "string list"

text \<open>\<^verbatim>\<open>xs.index(v)\<close> for a \<open>v\<close> that occurs in \<open>xs\<close>: its first position.\<close>

definition index_of :: "'a list \<Rightarrow> 'a \<Rightarrow> nat" where
  "index_of xs v = length (takeWhile (\<lambda>y. y \<noteq> v) xs)"

text \<open>
  \<^verbatim>\<open>sorted(set(xs), key=xs.index)\<close>.  The set is enumerated in some order
  (\<open>remdups xs\<close> is one) and sorted by first position; the keys of distinct
  elements differ, so the enumeration does not matter.
\<close>

definition sorted_set_by_index :: "'a list \<Rightarrow> 'a list" where
  "sorted_set_by_index xs = sort_key (index_of xs) (remdups xs)"

text \<open>\<open>ARLoss.__init__(step_loss, last_loss, step_fn, max_iter, return_params,
  input_var, initial_var)\<close>, the arguments in the order of the signature.\<close>

definition ARLoss_init ::
  "loss option \<Rightarrow> loss option \<Rightarrow> (nat \<Rightarrow> xdict \<Rightarrow> error + xdict) \<Rightarrow> int \<Rightarrow> bool \<Rightarrow>
   string list option \<Rightarrow> string list option \<Rightarrow> arloss" where
  "ARLoss_init step_loss' last_loss' step_fn' max_iter' return_params' input_var' initial_var' =
     \<lparr> last_loss = last_loss',
       step_loss = step_loss',
       max_iter = max_iter',
       step_fn = step_fn',
       initial_var = initial_var',
       return_params = return_params',
       input_var =
         (case input_var' of
            Some v \<Rightarrow> v
          | None \<Rightarrow>
              (let l1 = (case last_loss' of None \<Rightarrow> [] | Some l \<Rightarrow> loss_input_var l);
                   l2 = l1 @ (case step_loss' of None \<Rightarrow> [] | Some s \<Rightarrow> loss_input_var s)
               in sorted_set_by_index l2)) \<rparr>"

text \<open>\<open>ARDRAWLoss.__init__(step_loss, last_loss, step_fn, max_iter, return_params,
  initial_var, input_var)\<close>: the arguments go to the base constructor by position, in
  the order of this signature.\<close>

definition ARDRAWLoss_init ::
  "loss option \<Rightarrow> loss option \<Rightarrow> (nat \<Rightarrow> xdict \<Rightarrow> error + xdict) \<Rightarrow> int \<Rightarrow> bool \<Rightarrow>
   string list option \<Rightarrow> string list option \<Rightarrow> arloss" where
  "ARDRAWLoss_init step_loss' last_loss' step_fn' max_iter' return_params' initial_var' input_var' =
     ARLoss_init step_loss' last_loss' step_fn' max_iter' return_params' initial_var' input_var'"

text \<open>The step loop of \<open>ARDRAWLoss.estimate\<close> over the indices of
  \<^verbatim>\<open>range(self.max_iter)\<close>, with the state and the running sum.\<close>

fun draw_loop :: "arloss \<Rightarrow> nat list \<Rightarrow> xdict \<Rightarrow> real \<Rightarrow> error + (xdict \<times> real)" where
  "draw_loop L [] x s = Inr (x, s)"
| "draw_loop L (i # is) x s =
     (case step_loss L of
        None \<Rightarrow> Inl AttributeError
      | Some sl \<Rightarrow>
          (case loss_estimate sl x of
             Inl e \<Rightarrow> Inl e
           | Inr v \<Rightarrow>
               (case step_fn L i x of
                  Inl e \<Rightarrow> Inl e
                | Inr x' \<Rightarrow> draw_loop L is x' (s + v))))"

text \<open>
  \<open>ARDRAWLoss.estimate\<close>.  The first argument is the inherited \<open>Loss.estimate\<close>, which
  pre-processes the input dict (the base class is in \<^verbatim>\<open>pixyz/losses/losses.py\<close>).
\<close>

definition ARDRAWLoss_estimate ::
  "(arloss \<Rightarrow> xdict \<Rightarrow> error + xdict) \<Rightarrow> arloss \<Rightarrow> xdict \<Rightarrow> error + estimate_result" where
  "ARDRAWLoss_estimate super_estimate L x =
     (case super_estimate L x of
        Inl e \<Rightarrow> Inl e
      | Inr x0 \<Rightarrow>
          (case draw_loop L [0..<nat (max_iter L)] x0 0 of
             Inl e \<Rightarrow> Inl e
           | Inr (x1, step_loss_sum) \<Rightarrow>
               (case last_loss L of
                  None \<Rightarrow> Inl AttributeError
                | Some ll \<Rightarrow>
                    (case loss_estimate ll x1 of
                       Inl e \<Rightarrow> Inl e
                     | Inr v \<Rightarrow>
                         (let loss = step_loss_sum + v
                          in if return_params L then Inr (LossParams loss x1)
                             else Inr (Loss loss))))))"

record arseriesloss = arloss +
  series_var :: "string list"
  non_series_var :: "string list"

text \<open>
  \<open>ARSeriesLoss.__init__(step_loss, last_loss, step_fn, max_iter, return_params,
  series_var, input_var)\<close>.  \<open>initial_var\<close> keeps the base default \<open>None\<close>;
  \<^verbatim>\<open>set(self.series_var)\<close> raises for the default \<open>series_var=None\<close>.  The order of
  \<open>non_series_var\<close>, a list made from a set, is not determined by the source.
\<close>

definition ARSeriesLoss_init ::
  "loss option \<Rightarrow> loss option \<Rightarrow> (nat \<Rightarrow> xdict \<Rightarrow> error + xdict) \<Rightarrow> int \<Rightarrow> bool \<Rightarrow>
   string list option \<Rightarrow> string list option \<Rightarrow> error + arseriesloss" where
  "ARSeriesLoss_init step_loss' last_loss' step_fn' max_iter' return_params' series_var' input_var' =
     (let base = ARLoss_init step_loss' last_loss' step_fn' max_iter' return_params' input_var' None
      in case series_var' of
           None \<Rightarrow> Inl TypeError
         | Some sv \<Rightarrow>
             Inr (arloss.extend base
                    \<lparr> series_var = sv,
                      non_series_var = filter (\<lambda>v. v \<notin> set sv) (remdups (input_var base)) \<rparr>))"

text \<open>\<open>slice_step_from_inputs\<close>: \<^verbatim>\<open>{k: v[t] for k, v in x.items()}\<close>.\<close>

fun slice_step_from_inputs :: "nat \<Rightarrow> xdict \<Rightarrow> error + xdict" where
  "slice_step_from_inputs t [] = Inr []"
| "slice_step_from_inputs t ((k, v) # kvs) =
     (case tensor_index v t of
        Inl e \<Rightarrow> Inl e
      | Inr vt \<Rightarrow>
          (case slice_step_from_inputs t kvs of
             Inl e \<Rightarrow> Inl e
           | Inr r \<Rightarrow> Inr ((k, vt) # r)))"

text \<open>The step loop of \<open>ARSeriesLoss.estimate\<close>.\<close>

fun series_loop ::
  "arseriesloss \<Rightarrow> xdict \<Rightarrow> nat list \<Rightarrow> xdict \<Rightarrow> real \<Rightarrow> error + (xdict \<times> real)" where
  "series_loop L series_x [] x s = Inr (x, s)"
| "series_loop L series_x (t # ts) x s =
     (case slice_step_from_inputs t series_x of
        Inl e \<Rightarrow> Inl e
      | Inr sl \<Rightarrow>
          (case step_fn L t (dict_update x sl) of
             Inl e \<Rightarrow> Inl e
           | Inr x' \<Rightarrow>
               (case step_loss L of
                  None \<Rightarrow> Inl AttributeError
                | Some stl \<Rightarrow>
                    (case loss_estimate stl x' of
                       Inl e \<Rightarrow> Inl e
                     | Inr v \<Rightarrow> series_loop L series_x ts x' (s + v)))))"

text \<open>The part of \<open>ARSeriesLoss.estimate\<close> after the loop: the guarded last loss.\<close>

definition series_last :: "arseriesloss \<Rightarrow> xdict \<Rightarrow> xdict \<Rightarrow> real \<Rightarrow> error + (xdict \<times> real)" where
  "series_last L series_x x loss =
     (case last_loss L of
        None \<Rightarrow> Inr (x, loss)
      | Some ll \<Rightarrow>
          (case slice_step_from_inputs 0 series_x of
             Inl e \<Rightarrow> Inl e
           | Inr sl \<Rightarrow>
               (let x' = dict_update x sl
                in case loss_estimate ll x' of
                     Inl e \<Rightarrow> Inl e
                   | Inr v \<Rightarrow> Inr (x', loss + v))))"

definition ARSeriesLoss_estimate ::
  "(arseriesloss \<Rightarrow> xdict \<Rightarrow> error + xdict) \<Rightarrow> arseriesloss \<Rightarrow> xdict \<Rightarrow> error + estimate_result" where
  "ARSeriesLoss_estimate super_estimate L x =
     (case super_estimate L x of
        Inl e \<Rightarrow> Inl e
      | Inr x0 \<Rightarrow>
          (let series_x = get_dict_values x0 (series_var L)
           in case series_loop L series_x [0..<nat (max_iter L)] x0 0 of
                Inl e \<Rightarrow> Inl e
              | Inr (x1, step_loss_sum) \<Rightarrow>
                  (case series_last L series_x x1 step_loss_sum of
                     Inl e \<Rightarrow> Inl e
                   | Inr (x2, loss) \<Rightarrow>
                       if return_params L then Inr (LossParams loss (dict_update x2 series_x))
                       else Inr (Loss loss))))"

subsection \<open>Concrete losses\<close>

text \<open>A loss that returns the constant \<open>c\<close> and declares no input.\<close>

definition const_loss :: "real \<Rightarrow> loss" where
  "const_loss c = \<lparr> loss_input_var = [], loss_estimate = (\<lambda>x. Inr c) \<rparr>"

text \<open>The inherited \<open>Loss.estimate\<close> taken as the identity on the input dict.\<close>

definition identity_super :: "'a \<Rightarrow> xdict \<Rightarrow> error + xdict" where
  "identity_super L x = Inr x"

text \<open>An \<open>ARDRAWLoss\<close> with \<open>max_iter=3\<close>, step loss constantly 1, identity transition and last loss constantly 2.\<close>

definition draw_example :: arloss where
  "draw_example =
     ARDRAWLoss_init (Some (const_loss 1)) (Some (const_loss 2)) (\<lambda>i x. Inr x) 3 False None None"

text \<open>The same loss built without a last loss.\<close>

definition draw_no_last_example :: arloss where
  "draw_no_last_example =
     ARDRAWLoss_init (Some (const_loss 1)) None (\<lambda>i x. Inr x) 3 False None None"

text \<open>A loss that reads the entry \<open>x\<close> of the state, a one-element slice, and returns its value.\<close>

definition slice_value_loss :: loss where
  "slice_value_loss =
     \<lparr> loss_input_var = [''x''],
       loss_estimate = (\<lambda>d. case map_of d ''x'' of
                                Some (Arr [Num r]) \<Rightarrow> Inr r
                              | _ \<Rightarrow> Inl (ValueError [])) \<rparr>"

text \<open>The two-step series \<^verbatim>\<open>{"x": [[1.0], [2.0]]}\<close>.\<close>

definition series_input :: xdict where
  "series_input = [(''x'', Arr [Arr [Num 1], Arr [Num 2]])]"

text \<open>The object that \<open>ARSeriesLoss\<close> builds for \<open>max_iter=2\<close>, \<open>series_var=["x"]\<close>, the slice-value step loss, identity transition and no last loss.\<close>

definition series_example :: arseriesloss where
  "series_example =
     \<lparr> last_loss = None, step_loss = Some slice_value_loss, max_iter = 2,
       step_fn = (\<lambda>t x. Inr x), initial_var = None, return_params = False,
       input_var = [''x''], series_var = [''x''], non_series_var = [] \<rparr>"

text \<open>The same with the slice-value loss as last loss too and \<open>return_params=True\<close>.\<close>

definition series_params_example :: arseriesloss where
  "series_params_example =
     \<lparr> last_loss = Some slice_value_loss, step_loss = Some slice_value_loss, max_iter = 2,
       step_fn = (\<lambda>t x. Inr x), initial_var = None, return_params = True,
       input_var = [''x''], series_var = [''x''], non_series_var = [] \<rparr>"

section \<open>Mixture models (\<^verbatim>\<open>pixyz/distributions/mixture_distributions.py\<close>)\<close>

subsection \<open>Log-likelihood values\<close>

text \<open>
  An entry of a log-likelihood tensor: a finite number, an infinity or not-a-number.
  Finite numbers are reals and their sums and differences are exact; rounding and
  underflow are left out.  What is kept of the floating-point format is its range:
  \<open>exp\<close> of a finite number is infinite once it exceeds the largest finite value
  \<open>M\<close> of the format, which the operations below take as a parameter.
\<close>

datatype fpnum = Fin real | PosInf | NegInf | NaN

fun fadd :: "fpnum \<Rightarrow> fpnum \<Rightarrow> fpnum" where
  "fadd NaN b = NaN"
| "fadd a NaN = NaN"
| "fadd PosInf NegInf = NaN"
| "fadd NegInf PosInf = NaN"
| "fadd PosInf b = PosInf"
| "fadd a PosInf = PosInf"
| "fadd NegInf b = NegInf"
| "fadd a NegInf = NegInf"
| "fadd (Fin a) (Fin b) = Fin (a + b)"

fun fneg :: "fpnum \<Rightarrow> fpnum" where
  "fneg (Fin a) = Fin (- a)"
| "fneg PosInf = NegInf"
| "fneg NegInf = PosInf"
| "fneg NaN = NaN"

definition fsub :: "fpnum \<Rightarrow> fpnum \<Rightarrow> fpnum" where
  "fsub a b = fadd a (fneg b)"


text \<open>\<^verbatim>\<open>torch.exp\<close> and \<^verbatim>\<open>torch.log\<close> on an entry.\<close>

fun fexp :: "real \<Rightarrow> fpnum \<Rightarrow> fpnum" where
  "fexp M (Fin a) = (if M < exp a then PosInf else Fin (exp a))"
| "fexp M PosInf = PosInf"
| "fexp M NegInf = Fin 0"
| "fexp M NaN = NaN"

fun flog :: "fpnum \<Rightarrow> fpnum" where
  "flog (Fin a) = (if 0 < a then Fin (ln a) else if a = 0 then NegInf else NaN)"
| "flog PosInf = PosInf"
| "flog NegInf = NaN"
| "flog NaN = NaN"

text \<open>Sums of entries are written with \<open>+\<close> and \<open>sum_list\<close>.\<close>

instantiation fpnum :: comm_monoid_add
begin

definition zero_fpnum :: fpnum where
  "zero_fpnum = Fin 0"

definition plus_fpnum :: "fpnum \<Rightarrow> fpnum \<Rightarrow> fpnum" where
  "plus_fpnum a b = fadd a b"

instance
proof
  fix a b c :: fpnum
  show "a + b + c = a + (b + c)"
    unfolding plus_fpnum_def by (cases a; cases b; cases c) simp_all
  show "a + b = b + a"
    unfolding plus_fpnum_def by (cases a; cases b) simp_all
  show "0 + a = a"
    unfolding plus_fpnum_def zero_fpnum_def by (cases a) simp_all
qed

end

text \<open>The finite entries of a list.\<close>

fun fins :: "fpnum list \<Rightarrow> real list" where
  "fins [] = []"
| "fins (Fin a # xs) = a # fins xs"
| "fins (x # xs) = fins xs"

text \<open>\<^verbatim>\<open>torch.max\<close> along an axis, on the entries \<open>xs\<close> of that axis: not-a-number if
  one of them is, else the largest.\<close>

definition amax :: "fpnum list \<Rightarrow> fpnum" where
  "amax xs =
     (if NaN \<in> set xs then NaN
      else if PosInf \<in> set xs then PosInf
      else (case fins xs of [] \<Rightarrow> NegInf | r # rs \<Rightarrow> Fin (Max (set (r # rs)))))"

text \<open>
  \<^verbatim>\<open>torch.logsumexp\<close> along an axis, on the entries \<open>xs\<close> of that axis.  A finite
  maximum is taken out before exponentiating and added back after the logarithm; an
  infinite maximum is the result.
\<close>

definition logsumexp :: "real \<Rightarrow> fpnum list \<Rightarrow> fpnum" where
  "logsumexp M xs =
     (case amax xs of
        Fin mx \<Rightarrow> fadd (Fin mx) (flog (\<Sum>u\<leftarrow>xs. fexp M (fsub u (Fin mx))))
      | m \<Rightarrow> m)"



subsection \<open>Construction and likelihoods\<close>

text \<open>
  The \<open>Distribution\<close> collaborator, with the randomness it consumes made explicit:
  \<open>sample\<close> takes the state \<open>'r\<close> of its random source and returns the next one.
  A log-likelihood is a 1-dim tensor, one entry per batch element, written as the
  list of its entries (a 0-dim result as its one entry).
\<close>

record 'r distribution =
  d_name :: string
  d_var :: "string list"
  d_distribution_name :: string
  d_get_params :: xdict
  d_log_likelihood :: "xdict \<Rightarrow> error + fpnum list"
  d_sample :: "'r \<Rightarrow> error + (xdict \<times> 'r)"

text \<open>The \<open>distributions\<close> argument of the constructor: a Python list, or any other
  object.\<close>

datatype 'r distributions_arg = PyList "'r distribution list" | NotAList

record 'r mixture_model =
  m_var :: "string list"
  m_name :: string
  m_distributions :: "'r distribution list"
  m_prior :: "'r distribution"
  m_hidden_var :: "string list"

text \<open>\<^verbatim>\<open>len(t)\<close> of a tensor: the size of its leading axis; a 0-dim tensor has none.\<close>

fun tensor_len :: "tensor \<Rightarrow> error + nat" where
  "tensor_len (Num r) = Inl TypeError"
| "tensor_len (Arr ts) = Inr (length ts)"

text \<open>
  \<open>MixtureModel.__init__\<close>.  The four \<^verbatim>\<open>raise ValueError\<close> of the source are told apart
  by their messages.  \<^verbatim>\<open>list(set(var_list))\<close> is some enumeration of the set
  (\<open>remdups\<close> is one); only its length is tested, and on success it has one element.
\<close>

definition MixtureModel_init ::
  "'r distributions_arg \<Rightarrow> 'r distribution \<Rightarrow> string \<Rightarrow> error + 'r mixture_model" where
  "MixtureModel_init distributions prior name =
     (case distributions of
        NotAList \<Rightarrow> Inl (ValueError [])
      | PyList ds \<Rightarrow>
          if d_distribution_name prior \<noteq> ''Categorical''
          then Inl (ValueError ''The prior must be the categorical distribution.'')
          else
            (case map_of (d_get_params prior) ''probs'' of
               None \<Rightarrow> Inl (KeyError ''probs'')
             | Some probs \<Rightarrow>
                 (case tensor_len probs of
                    Inl e \<Rightarrow> Inl e
                  | Inr n \<Rightarrow>
                      if n \<noteq> length ds
                      then Inl (ValueError
                        ''The number of its category must be the same as the length of the distribution list.'')
                      else
                        (let var_list = remdups (concat (map d_var ds))
                         in if length var_list \<noteq> 1
                            then Inl (ValueError ''All distributions must have the same variable.'')
                            else Inr \<lparr> m_var = var_list, m_name = name, m_distributions = ds,
                                       m_prior = prior, m_hidden_var = d_var prior \<rparr>))))"

text \<open>Row \<open>i\<close> of \<^verbatim>\<open>torch.eye(n)\<close>, the one-hot encoding of \<open>i\<close>, and the matrix itself.\<close>

definition one_hot :: "nat \<Rightarrow> nat \<Rightarrow> tensor" where
  "one_hot n i = Arr (map (\<lambda>j. Num (if i = j then 1 else 0)) [0..<n])"

definition torch_eye :: "nat \<Rightarrow> tensor" where
  "torch_eye n = Arr (map (one_hot n) [0..<n])"

text \<open>\<^verbatim>\<open>a + b\<close> and \<^verbatim>\<open>a - b\<close> on 1-dim tensors, with broadcasting of a one-element operand;
  other length mismatches raise.\<close>

definition broadcast2 :: "('a \<Rightarrow> 'a \<Rightarrow> 'a) \<Rightarrow> 'a list \<Rightarrow> 'a list \<Rightarrow> error + 'a list" where
  "broadcast2 f a b =
     (if length a = length b then Inr (map2 f a b)
      else if length b = 1 then Inr (map (\<lambda>u. f u (hd b)) a)
      else if length a = 1 then Inr (map (\<lambda>u. f (hd a) u) b)
      else Inl RuntimeError)"

text \<open>\<^verbatim>\<open>torch.stack(ts, dim=0)\<close> of 1-dim tensors: the list must be non-empty and the
  tensors of equal size.\<close>

definition torch_stack :: "'a list list \<Rightarrow> error + 'a list list" where
  "torch_stack ts =
     (case ts of
        [] \<Rightarrow> Inl RuntimeError
      | t # _ \<Rightarrow> if \<forall>u \<in> set ts. length u = length t then Inr ts else Inl RuntimeError)"

text \<open>The loop of \<open>log_likelihood_all_hidden\<close> over \<^verbatim>\<open>enumerate(self._distributions)\<close>,
  with the list \<open>log_likelihood_all\<close>.\<close>

fun all_hidden_loop ::
  "'r mixture_model \<Rightarrow> xdict \<Rightarrow> tensor \<Rightarrow> (nat \<times> 'r distribution) list \<Rightarrow> fpnum list list \<Rightarrow>
   error + fpnum list list" where
  "all_hidden_loop m x_dict eye_tensor [] log_likelihood_all = Inr log_likelihood_all"
| "all_hidden_loop m x_dict eye_tensor ((i, d) # rest) log_likelihood_all =
     (case m_hidden_var m of
        [] \<Rightarrow> Inl IndexError
      | h # _ \<Rightarrow>
          (case tensor_index eye_tensor i of
             Inl e \<Rightarrow> Inl e
           | Inr row \<Rightarrow>
               (case d_log_likelihood (m_prior m) [(h, row)] of
                  Inl e \<Rightarrow> Inl e
                | Inr prior_loglike \<Rightarrow>
                    (case d_log_likelihood d x_dict of
                       Inl e \<Rightarrow> Inl e
                     | Inr loglike \<Rightarrow>
                         (case broadcast2 fadd loglike prior_loglike of
                            Inl e \<Rightarrow> Inl e
                          | Inr r \<Rightarrow>
                              all_hidden_loop m x_dict eye_tensor rest
                                (log_likelihood_all @ [r]))))))"

text \<open>\<open>log_likelihood_all_hidden\<close>: the rows are the components, the columns the batch.
  Reading \<^verbatim>\<open>x_dict[self._var[0]].device\<close> needs the key.\<close>

definition log_likelihood_all_hidden :: "'r mixture_model \<Rightarrow> xdict \<Rightarrow> error + fpnum list list" where
  "log_likelihood_all_hidden m x_dict =
     (case m_var m of
        [] \<Rightarrow> Inl IndexError
      | v # _ \<Rightarrow>
          (case map_of x_dict v of
             None \<Rightarrow> Inl (KeyError v)
           | Some _ \<Rightarrow>
               (case all_hidden_loop m x_dict (torch_eye (length (m_distributions m)))
                       (enumerate 0 (m_distributions m)) [] of
                  Inl e \<Rightarrow> Inl e
                | Inr log_likelihood_all \<Rightarrow> torch_stack log_likelihood_all)))"

text \<open>\<^verbatim>\<open>torch.logsumexp(t, 0)\<close> of a 2-dim tensor given by its rows: one entry per column.\<close>

definition torch_logsumexp0 :: "real \<Rightarrow> fpnum list list \<Rightarrow> fpnum list" where
  "torch_logsumexp0 M rows =
     (case rows of
        [] \<Rightarrow> []
      | r # _ \<Rightarrow> map (\<lambda>b. logsumexp M (map (\<lambda>row. row ! b) rows)) [0..<length r])"

definition log_likelihood :: "real \<Rightarrow> 'r mixture_model \<Rightarrow> xdict \<Rightarrow> error + fpnum list" where
  "log_likelihood M m x_dict =
     (case log_likelihood_all_hidden m x_dict of
        Inl e \<Rightarrow> Inl e
      | Inr loglike \<Rightarrow> Inr (torch_logsumexp0 M loglike))"



subsection \<open>Sampling\<close>











subsection \<open>Concrete mixtures\<close>

text \<open>The largest finite value of the default tensor type, 32-bit floating point.\<close>

definition float32_max :: real where
  "float32_max = (2 - 1 / 2 ^ 23) * 2 ^ 127"

text \<open>A component over \<open>x\<close> whose log-likelihood is the constant \<open>c\<close> on a batch of
  one, and whose sample is the constant \<open>s\<close>.\<close>

definition point_component :: "string \<Rightarrow> fpnum \<Rightarrow> real \<Rightarrow> unit distribution" where
  "point_component nm c s =
     \<lparr> d_name = nm, d_var = [''x''], d_distribution_name = ''Normal'', d_get_params = [],
       d_log_likelihood = (\<lambda>x. Inr [c]),
       d_sample = (\<lambda>g. Inr ([(''x'', Arr [Arr [Num s]])], g)) \<rparr>"

text \<open>A categorical prior over \<open>z\<close> with the two probabilities \<open>p\<close> and \<open>q\<close>: the
  log-likelihood of the one-hot encoding of an index is the logarithm of its
  probability; its sample is fixed to the second category.\<close>

definition categorical2 :: "real \<Rightarrow> real \<Rightarrow> unit distribution" where
  "categorical2 p q =
     \<lparr> d_name = ''prior'', d_var = [''z''], d_distribution_name = ''Categorical'',
       d_get_params = [(''probs'', Arr [Num p, Num q])],
       d_log_likelihood =
         (\<lambda>d. if d = [(''z'', one_hot 2 0)] then Inr [Fin (ln p)]
              else if d = [(''z'', one_hot 2 1)] then Inr [Fin (ln q)]
              else Inl (ValueError [])),
       d_sample = (\<lambda>g. Inr ([(''z'', Arr [one_hot 2 1])], g)) \<rparr>"

text \<open>The mixture that the constructor builds from two components with the large
  log-likelihoods 200 and 201 and the prior with probabilities 1/3 and 2/3.\<close>

definition mixture_example :: "unit mixture_model" where
  "mixture_example =
     \<lparr> m_var = [''x''], m_name = ''p'',
       m_distributions = [point_component ''p_0'' (Fin 200) 0, point_component ''p_1'' (Fin 201) 1],
       m_prior = categorical2 (1/3) (2/3), m_hidden_var = [''z''] \<rparr>"

text \<open>The same mixture with the two components, and the two probabilities, exchanged.\<close>

definition mixture_swapped_example :: "unit mixture_model" where
  "mixture_swapped_example =
     \<lparr> m_var = [''x''], m_name = ''p'',
       m_distributions = [point_component ''p_1'' (Fin 201) 1, point_component ''p_0'' (Fin 200) 0],
       m_prior = categorical2 (2/3) (1/3), m_hidden_var = [''z''] \<rparr>"

text \<open>A mixture whose two components give the input the density zero.\<close>

definition zero_density_example :: "unit mixture_model" where
  "zero_density_example =
     \<lparr> m_var = [''x''], m_name = ''p'',
       m_distributions = [point_component ''p_0'' NegInf 0, point_component ''p_1'' NegInf 1],
       m_prior = categorical2 (1/3) (2/3), m_hidden_var = [''z''] \<rparr>"

text \<open>An input of one batch element.\<close>

definition mixture_input :: xdict where
  "mixture_input = [(''x'', Arr [Arr [Num 0]])]"

section \<open>Dicts and slices\<close>

lemma map_of_dict_update:
  "distinct (map fst y) \<Longrightarrow> map_of (dict_update x y) = map_of x ++ map_of y"
  unfolding dict_update_def
proof (induction y arbitrary: x)
  case Nil
  then show ?case by simp
next
  case (Cons p y)
  obtain k v where p: "p = (k, v)" by (cases p)
  from Cons.prems p have nk: "k \<notin> fst ` set y" and d: "distinct (map fst y)" by auto
  have none: "map_of y k = None" using nk by (simp add: map_of_eq_None_iff)
  have ih: "map_of (fold (\<lambda>(k, v). AList.update k v) y (AList.update k v x)) =
              map_of (AList.update k v x) ++ map_of y"
    by (rule Cons.IH [OF d])
  have eq: "map_of (AList.update k v x) ++ map_of y = map_of x ++ map_of ((k, v) # y)"
  proof (rule ext)
    fix a
    show "(map_of (AList.update k v x) ++ map_of y) a = (map_of x ++ map_of ((k, v) # y)) a"
      using none by (cases "a = k") (simp_all add: map_add_def update_conv' split: option.splits)
  qed
  have "fold (\<lambda>(k, v). AList.update k v) (p # y) x =
          fold (\<lambda>(k, v). AList.update k v) y (AList.update k v x)"
    by (simp add: p)
  then have "map_of (fold (\<lambda>(k, v). AList.update k v) (p # y) x) =
          map_of (AList.update k v x) ++ map_of y"
    using ih by (rule ssubst)
  also note eq
  finally show ?case unfolding p .
qed

lemma get_dict_values_fold:
  "map_of (fold (\<lambda>key d. case map_of dicts key of None \<Rightarrow> d | Some v \<Rightarrow> AList.update key v d) keys acc) k =
     (if k \<in> set keys \<and> map_of dicts k \<noteq> None then map_of dicts k else map_of acc k)"
  by (induction keys arbitrary: acc) (auto simp: update_conv' split: option.splits)

lemma map_of_get_dict_values:
  "map_of (get_dict_values dicts keys) k = (if k \<in> set keys then map_of dicts k else None)"
  unfolding get_dict_values_def by (simp add: get_dict_values_fold)

lemma distinct_get_dict_values_fold:
  "distinct (map fst acc) \<Longrightarrow>
   distinct (map fst (fold (\<lambda>key d. case map_of dicts key of None \<Rightarrow> d | Some v \<Rightarrow> AList.update key v d) keys acc))"
  by (induction keys arbitrary: acc) (auto simp: distinct_update split: option.splits)

lemma distinct_get_dict_values: "distinct (map fst (get_dict_values dicts keys))"
  unfolding get_dict_values_def by (rule distinct_get_dict_values_fold) simp

lemma slice_keys:
  "slice_step_from_inputs t d = Inr r \<Longrightarrow> map fst r = map fst d"
  by (induction t d arbitrary: r rule: slice_step_from_inputs.induct)
     (auto split: sum.splits)

lemma slice_Some:
  "slice_step_from_inputs t d = Inr r \<Longrightarrow> map_of d k = Some v \<Longrightarrow>
   \<exists>vt. tensor_index v t = Inr vt \<and> map_of r k = Some vt"
  by (induction t d arbitrary: r rule: slice_step_from_inputs.induct)
     (auto split: sum.splits if_splits)

lemma slice_None:
  "slice_step_from_inputs t d = Inr r \<Longrightarrow> map_of d k = None \<Longrightarrow> map_of r k = None"
  by (induction t d arbitrary: r rule: slice_step_from_inputs.induct)
     (auto split: sum.splits if_splits)

lemma draw_loop_run:
  assumes sl: "step_loss L = Some sl"
    and run: "\<forall>i. a \<le> i \<and> i < a + k \<longrightarrow>
               loss_estimate sl (st i) = Inr (v i) \<and> step_fn L i (st i) = Inr (st (Suc i))"
  shows "draw_loop L [a..<a + k] (st a) s = Inr (st (a + k), s + (\<Sum>i\<leftarrow>[a..<a + k]. v i))"
  using run
proof (induction k arbitrary: a s)
  case 0
  then show ?case by simp
next
  case (Suc k)
  have step: "loss_estimate sl (st a) = Inr (v a)" "step_fn L a (st a) = Inr (st (Suc a))"
    using Suc.prems by auto
  have rest: "\<forall>i. Suc a \<le> i \<and> i < Suc a + k \<longrightarrow>
               loss_estimate sl (st i) = Inr (v i) \<and> step_fn L i (st i) = Inr (st (Suc i))"
    using Suc.prems by auto
  have up: "[a..<a + Suc k] = a # [Suc a..<Suc a + k]"
    by (simp add: upt_conv_Cons)
  show ?case
    unfolding up using Suc.IH [OF rest, of "s + v a"] sl step
    by (simp add: add.assoc)
qed

lemma series_loop_run:
  assumes sl: "step_loss L = Some stl"
    and run: "\<forall>t. a \<le> t \<and> t < a + k \<longrightarrow>
               slice_step_from_inputs t sx = Inr (sl t) \<and>
               step_fn L t (dict_update (st t) (sl t)) = Inr (st (Suc t)) \<and>
               loss_estimate stl (st (Suc t)) = Inr (v t)"
  shows "series_loop L sx [a..<a + k] (st a) s = Inr (st (a + k), s + (\<Sum>t\<leftarrow>[a..<a + k]. v t))"
  using run
proof (induction k arbitrary: a s)
  case 0
  then show ?case by simp
next
  case (Suc k)
  have step: "slice_step_from_inputs a sx = Inr (sl a)"
    "step_fn L a (dict_update (st a) (sl a)) = Inr (st (Suc a))"
    "loss_estimate stl (st (Suc a)) = Inr (v a)"
    using Suc.prems by auto
  have rest: "\<forall>t. Suc a \<le> t \<and> t < Suc a + k \<longrightarrow>
               slice_step_from_inputs t sx = Inr (sl t) \<and>
               step_fn L t (dict_update (st t) (sl t)) = Inr (st (Suc t)) \<and>
               loss_estimate stl (st (Suc t)) = Inr (v t)"
    using Suc.prems by auto
  have up: "[a..<a + Suc k] = a # [Suc a..<Suc a + k]"
    by (simp add: upt_conv_Cons)
  show ?case
    unfolding up using Suc.IH [OF rest, of "s + v a"] sl step
    by (simp add: add.assoc)
qed

lemma set_sorted_set_by_index: "set (sorted_set_by_index xs) = set xs"
  by (simp add: sorted_set_by_index_def)

lemma distinct_sorted_set_by_index: "distinct (sorted_set_by_index xs)"
  by (simp add: sorted_set_by_index_def)

section \<open>Properties of the auto-regressive losses\<close>

text \<open>
  Claim C3.  Let an \<open>ARDRAWLoss\<close> have a step loss and a last loss, and let \<open>st\<close> be
  the states of a run: \<open>st 0\<close> is the pre-processed input and, for every
  \<open>i < max_iter\<close>, the step loss evaluated at \<open>st i\<close> yields \<open>v i\<close> and
  \<open>step_fn(i, st i)\<close> yields \<open>st (i + 1)\<close>.  Then \<open>estimate\<close> returns the sum of the
  \<open>v i\<close> for \<open>i = 0, \<dots>, max_iter - 1\<close>, each taken at the state before transition
  \<open>i\<close>, plus the last loss at the final state \<open>st max_iter\<close>: as a scalar, or paired
  with the final state when \<open>return_params\<close> is set.  The instance below is the loss
  with \<open>max_iter=3\<close>, step loss 1, identity transition and last loss 2, whose estimate
  of the empty dict is 5.
\<close>

theorem ARDRAWLoss_estimate_run:
  assumes "step_loss L = Some sl"
    and "last_loss L = Some ll"
    and "super_estimate L x = Inr (st 0)"
    and "\<forall>i<nat (max_iter L).
           loss_estimate sl (st i) = Inr (v i) \<and> step_fn L i (st i) = Inr (st (Suc i))"
    and "loss_estimate ll (st (nat (max_iter L))) = Inr w"
  shows "ARDRAWLoss_estimate super_estimate L x =
           Inr (let loss = (\<Sum>i\<leftarrow>[0..<nat (max_iter L)]. v i) + w
                in if return_params L then LossParams loss (st (nat (max_iter L))) else Loss loss)"
proof -
  have run: "\<forall>i. 0 \<le> i \<and> i < 0 + nat (max_iter L) \<longrightarrow>
               loss_estimate sl (st i) = Inr (v i) \<and> step_fn L i (st i) = Inr (st (Suc i))"
    using assms(4) by simp
  have "draw_loop L [0..<0 + nat (max_iter L)] (st 0) 0 =
          Inr (st (0 + nat (max_iter L)), 0 + (\<Sum>i\<leftarrow>[0..<0 + nat (max_iter L)]. v i))"
    by (rule draw_loop_run [OF assms(1) run])
  then have loop: "draw_loop L [0..<nat (max_iter L)] (st 0) 0 =
          Inr (st (nat (max_iter L)), (\<Sum>i\<leftarrow>[0..<nat (max_iter L)]. v i))"
    by simp
  show ?thesis
    unfolding ARDRAWLoss_estimate_def using assms(2,3,5) loop by (simp add: Let_def)
qed

theorem ARDRAWLoss_estimate_run_witness:
  "step_loss draw_example = Some (const_loss 1) \<and>
   last_loss draw_example = Some (const_loss 2) \<and>
   max_iter draw_example = 3 \<and>
   (\<forall>i x. step_fn draw_example i x = Inr x) \<and>
   ARDRAWLoss_estimate identity_super draw_example [] = Inr (Loss 5)"
proof -
  have h1: "step_loss draw_example = Some (const_loss 1)"
    by (simp add: draw_example_def ARDRAWLoss_init_def ARLoss_init_def)
  have h2: "last_loss draw_example = Some (const_loss 2)"
    by (simp add: draw_example_def ARDRAWLoss_init_def ARLoss_init_def)
  have h3: "identity_super draw_example [] = Inr ((\<lambda>i. []) (0::nat))"
    by (simp add: identity_super_def)
  have mi: "max_iter draw_example = 3"
    by (simp add: draw_example_def ARDRAWLoss_init_def ARLoss_init_def)
  have fn: "\<forall>i x. step_fn draw_example i x = Inr x"
    by (simp add: draw_example_def ARDRAWLoss_init_def ARLoss_init_def)
  have rp: "\<not> return_params draw_example"
    by (simp add: draw_example_def ARDRAWLoss_init_def ARLoss_init_def)
  have h4: "\<forall>i<nat (max_iter draw_example).
              loss_estimate (const_loss 1) ((\<lambda>i. []) i) = Inr ((\<lambda>i. 1) i) \<and>
              step_fn draw_example i ((\<lambda>i. []) i) = Inr ((\<lambda>i. []) (Suc i))"
    using fn by (simp add: const_loss_def)
  have h5: "loss_estimate (const_loss 2) ((\<lambda>i. []) (nat (max_iter draw_example))) = Inr 2"
    by (simp add: const_loss_def)
  have up: "[0..<nat 3] = [0, 1, 2]"
    by (simp add: upt_rec)
  show ?thesis
    using ARDRAWLoss_estimate_run
      [of draw_example "const_loss 1" "const_loss 2" identity_super "[]" "\<lambda>i. []" "\<lambda>i. 1" 2,
       OF h1 h2 h3 h4 h5] h1 h2 mi fn rp up
    by (simp add: Let_def)
qed

text \<open>
  Claim C4.  Let an \<open>ARSeriesLoss\<close> have a step loss, and let \<open>st\<close> be the states of
  a run: \<open>st 0\<close> is the pre-processed input and, for every \<open>t < max_iter\<close>, the series
  entries sliced at \<open>t\<close> are \<open>sl t\<close>, \<open>step_fn(t, **x)\<close> on \<open>st t\<close> updated with \<open>sl t\<close>
  yields \<open>st (t + 1)\<close>, and the step loss at \<open>st (t + 1)\<close>, the state after the
  transition, yields \<open>v t\<close>.  Then the loop ends in state \<open>st max_iter\<close> with the sum of
  the \<open>v t\<close> for \<open>t = 0, \<dots>, max_iter - 1\<close>, which \<open>estimate\<close> hands to the part after
  the loop; without a last loss that sum is the result.  In the state given to
  \<open>step_fn\<close> at step \<open>t\<close>, every series entry is its slice at index \<open>t\<close> and every
  other entry is that of \<open>st t\<close>.  The instance below is the loss with \<open>max_iter=2\<close>,
  \<open>series_var=["x"]\<close> on the input \<open>[[1.0], [2.0]]\<close>, whose estimate is 3.
\<close>

theorem ARSeriesLoss_estimate_run:
  assumes "step_loss L = Some stl"
    and "super_estimate L x = Inr (st 0)"
    and "\<forall>t<nat (max_iter L).
           slice_step_from_inputs t (get_dict_values (st 0) (series_var L)) = Inr (sl t) \<and>
           step_fn L t (dict_update (st t) (sl t)) = Inr (st (Suc t)) \<and>
           loss_estimate stl (st (Suc t)) = Inr (v t)"
  shows "ARSeriesLoss_estimate super_estimate L x =
           (case series_last L (get_dict_values (st 0) (series_var L)) (st (nat (max_iter L)))
                   (\<Sum>t\<leftarrow>[0..<nat (max_iter L)]. v t) of
              Inl e \<Rightarrow> Inl e
            | Inr (x2, loss) \<Rightarrow>
                if return_params L
                then Inr (LossParams loss (dict_update x2 (get_dict_values (st 0) (series_var L))))
                else Inr (Loss loss)) \<and>
         (last_loss L = None \<longrightarrow>
            ARSeriesLoss_estimate super_estimate L x =
              Inr (if return_params L
                   then LossParams (\<Sum>t\<leftarrow>[0..<nat (max_iter L)]. v t)
                          (dict_update (st (nat (max_iter L))) (get_dict_values (st 0) (series_var L)))
                   else Loss (\<Sum>t\<leftarrow>[0..<nat (max_iter L)]. v t))) \<and>
         (\<forall>t<nat (max_iter L). \<forall>k.
            (\<forall>u. map_of (get_dict_values (st 0) (series_var L)) k = Some u \<longrightarrow>
               (\<exists>ut. tensor_index u t = Inr ut \<and>
                     map_of (dict_update (st t) (sl t)) k = Some ut)) \<and>
            (map_of (get_dict_values (st 0) (series_var L)) k = None \<longrightarrow>
               map_of (dict_update (st t) (sl t)) k = map_of (st t) k))"
proof -
  let ?sx = "get_dict_values (st 0) (series_var L)"
  let ?n = "nat (max_iter L)"
  have run: "\<forall>t. 0 \<le> t \<and> t < 0 + ?n \<longrightarrow>
               slice_step_from_inputs t ?sx = Inr (sl t) \<and>
               step_fn L t (dict_update (st t) (sl t)) = Inr (st (Suc t)) \<and>
               loss_estimate stl (st (Suc t)) = Inr (v t)"
    using assms(3) by simp
  have "series_loop L ?sx [0..<0 + ?n] (st 0) 0 =
          Inr (st (0 + ?n), 0 + (\<Sum>t\<leftarrow>[0..<0 + ?n]. v t))"
    by (rule series_loop_run [OF assms(1) run])
  then have loop: "series_loop L ?sx [0..<?n] (st 0) 0 = Inr (st ?n, (\<Sum>t\<leftarrow>[0..<?n]. v t))"
    by simp
  have eq: "ARSeriesLoss_estimate super_estimate L x =
           (case series_last L ?sx (st ?n) (\<Sum>t\<leftarrow>[0..<?n]. v t) of
              Inl e \<Rightarrow> Inl e
            | Inr (x2, loss) \<Rightarrow>
                if return_params L then Inr (LossParams loss (dict_update x2 ?sx))
                else Inr (Loss loss))"
    unfolding ARSeriesLoss_estimate_def using assms(2) loop by (simp add: Let_def)
  have nolast: "last_loss L = None \<longrightarrow>
            ARSeriesLoss_estimate super_estimate L x =
              Inr (if return_params L
                   then LossParams (\<Sum>t\<leftarrow>[0..<?n]. v t) (dict_update (st ?n) ?sx)
                   else Loss (\<Sum>t\<leftarrow>[0..<?n]. v t))"
    unfolding eq by (simp add: series_last_def)
  have slices: "\<forall>t<?n. \<forall>k.
            (\<forall>u. map_of ?sx k = Some u \<longrightarrow>
               (\<exists>ut. tensor_index u t = Inr ut \<and>
                     map_of (dict_update (st t) (sl t)) k = Some ut)) \<and>
            (map_of ?sx k = None \<longrightarrow>
               map_of (dict_update (st t) (sl t)) k = map_of (st t) k)"
  proof (intro allI impI)
    fix t k
    assume t: "t < ?n"
    have s: "slice_step_from_inputs t ?sx = Inr (sl t)" using assms(3) t by simp
    have d: "distinct (map fst (sl t))"
      using slice_keys [OF s] distinct_get_dict_values [of "st 0" "series_var L"] by simp
    have m: "map_of (dict_update (st t) (sl t)) = map_of (st t) ++ map_of (sl t)"
      by (rule map_of_dict_update [OF d])
    show "(\<forall>u. map_of ?sx k = Some u \<longrightarrow>
               (\<exists>ut. tensor_index u t = Inr ut \<and>
                     map_of (dict_update (st t) (sl t)) k = Some ut)) \<and>
            (map_of ?sx k = None \<longrightarrow>
               map_of (dict_update (st t) (sl t)) k = map_of (st t) k)"
    proof (intro conjI allI impI)
      fix u assume "map_of ?sx k = Some u"
      from slice_Some [OF s this] obtain ut where
        "tensor_index u t = Inr ut" "map_of (sl t) k = Some ut" by blast
      then show "\<exists>ut. tensor_index u t = Inr ut \<and> map_of (dict_update (st t) (sl t)) k = Some ut"
        using m by (simp add: map_add_def)
    next
      assume "map_of ?sx k = None"
      from slice_None [OF s this] show "map_of (dict_update (st t) (sl t)) k = map_of (st t) k"
        using m by (simp add: map_add_def)
    qed
  qed
  from eq nolast slices show ?thesis by blast
qed

theorem ARSeriesLoss_estimate_run_witness:
  "ARSeriesLoss_init (Some slice_value_loss) None (\<lambda>t x. Inr x) 2 False (Some [''x'']) None
     = Inr series_example \<and>
   step_loss series_example = Some slice_value_loss \<and>
   last_loss series_example = None \<and>
   ARSeriesLoss_estimate identity_super series_example series_input = Inr (Loss 3)"
proof -
  let ?st = "\<lambda>t::nat. if t = 0 then series_input else [(''x'', Arr [Num (real t)])]"
  let ?sl = "\<lambda>t::nat. [(''x'', Arr [Num (real (Suc t))])]"
  let ?v = "\<lambda>t::nat. real (Suc t)"
  have init: "ARSeriesLoss_init (Some slice_value_loss) None (\<lambda>t x. Inr x) 2 False (Some [''x'']) None
     = Inr series_example"
    by (simp add: ARSeriesLoss_init_def ARLoss_init_def series_example_def arloss.extend_def
        Let_def slice_value_loss_def sorted_set_by_index_def)
  have h1: "step_loss series_example = Some slice_value_loss"
    by (simp add: series_example_def)
  have h2: "identity_super series_example series_input = Inr (?st 0)"
    by (simp add: identity_super_def)
  have sx: "get_dict_values series_input (series_var series_example) = series_input"
    by (simp add: get_dict_values_def series_example_def series_input_def)
  have h3: "\<forall>t<nat (max_iter series_example).
           slice_step_from_inputs t (get_dict_values (?st 0) (series_var series_example)) = Inr (?sl t) \<and>
           step_fn series_example t (dict_update (?st t) (?sl t)) = Inr (?st (Suc t)) \<and>
           loss_estimate slice_value_loss (?st (Suc t)) = Inr (?v t)"
  proof (intro allI impI)
    fix t assume "t < nat (max_iter series_example)"
    then have "t = 0 \<or> t = 1" by (auto simp: series_example_def)
    then show "slice_step_from_inputs t (get_dict_values (?st 0) (series_var series_example)) = Inr (?sl t) \<and>
           step_fn series_example t (dict_update (?st t) (?sl t)) = Inr (?st (Suc t)) \<and>
           loss_estimate slice_value_loss (?st (Suc t)) = Inr (?v t)"
      using sx
      by (auto simp: series_input_def series_example_def dict_update_def slice_value_loss_def)
  qed
  have ll: "last_loss series_example = None" and rp: "\<not> return_params series_example"
    and mi: "max_iter series_example = 2"
    by (simp_all add: series_example_def)
  have up: "[0..<nat 2] = [0, 1]"
    by (simp add: upt_rec)
  have "ARSeriesLoss_estimate identity_super series_example series_input = Inr (Loss 3)"
    using ARSeriesLoss_estimate_run
      [of series_example slice_value_loss identity_super series_input ?st ?sl ?v, OF h1 h2 h3,
       THEN conjunct2, THEN conjunct1]
      ll rp mi up
    by simp
  with init h1 ll show ?thesis by blast
qed

text \<open>
  Claim C5.  Let the step loop of an \<open>ARSeriesLoss\<close> end in state \<open>x1\<close> with sum
  \<open>s\<close>, from the pre-processed input \<open>x0\<close>.  With a last loss, the last loss is
  evaluated at \<open>x1\<close> updated with the series entries sliced at index 0: there every
  series entry of the input is its slice at 0 and every other entry is that of
  \<open>x1\<close>.  With \<open>return_params\<close>, the returned dict is that state (or \<open>x1\<close>, without a
  last loss) updated with the series entries of the input: each series entry is
  the full tensor of \<open>x0\<close>, and every other entry is left as it was.
\<close>

theorem ARSeriesLoss_last_loss_and_params:
  assumes "super_estimate L x = Inr x0"
    and "series_loop L (get_dict_values x0 (series_var L)) [0..<nat (max_iter L)] x0 0 = Inr (x1, s)"
  shows "(\<forall>ll sl0. last_loss L = Some ll \<longrightarrow>
            slice_step_from_inputs 0 (get_dict_values x0 (series_var L)) = Inr sl0 \<longrightarrow>
            ARSeriesLoss_estimate super_estimate L x =
              (case loss_estimate ll (dict_update x1 sl0) of
                 Inl e \<Rightarrow> Inl e
               | Inr w \<Rightarrow>
                   Inr (if return_params L
                        then LossParams (s + w)
                               (dict_update (dict_update x1 sl0) (get_dict_values x0 (series_var L)))
                        else Loss (s + w))) \<and>
            (\<forall>k. (\<forall>u. k \<in> set (series_var L) \<and> map_of x0 k = Some u \<longrightarrow>
                     (\<exists>u0. tensor_index u 0 = Inr u0 \<and> map_of (dict_update x1 sl0) k = Some u0)) \<and>
                 (k \<notin> set (series_var L) \<or> map_of x0 k = None \<longrightarrow>
                     map_of (dict_update x1 sl0) k = map_of x1 k))) \<and>
         (last_loss L = None \<longrightarrow>
            ARSeriesLoss_estimate super_estimate L x =
              Inr (if return_params L
                   then LossParams s (dict_update x1 (get_dict_values x0 (series_var L)))
                   else Loss s)) \<and>
         (\<forall>y k. map_of (dict_update y (get_dict_values x0 (series_var L))) k =
            (if k \<in> set (series_var L) \<and> map_of x0 k \<noteq> None then map_of x0 k else map_of y k))"
proof -
  let ?sx = "get_dict_values x0 (series_var L)"
  have dsx: "distinct (map fst ?sx)" by (rule distinct_get_dict_values)
  have msx: "\<And>k. map_of ?sx k = (if k \<in> set (series_var L) then map_of x0 k else None)"
    by (rule map_of_get_dict_values)
  have ret: "\<forall>y k. map_of (dict_update y ?sx) k =
            (if k \<in> set (series_var L) \<and> map_of x0 k \<noteq> None then map_of x0 k else map_of y k)"
    by (auto simp: map_of_dict_update [OF dsx] map_add_def msx split: option.splits)
  have nolast: "last_loss L = None \<longrightarrow>
            ARSeriesLoss_estimate super_estimate L x =
              Inr (if return_params L then LossParams s (dict_update x1 ?sx) else Loss s)"
    unfolding ARSeriesLoss_estimate_def using assms by (simp add: Let_def series_last_def)
  have last: "\<forall>ll sl0. last_loss L = Some ll \<longrightarrow>
            slice_step_from_inputs 0 ?sx = Inr sl0 \<longrightarrow>
            ARSeriesLoss_estimate super_estimate L x =
              (case loss_estimate ll (dict_update x1 sl0) of
                 Inl e \<Rightarrow> Inl e
               | Inr w \<Rightarrow>
                   Inr (if return_params L
                        then LossParams (s + w) (dict_update (dict_update x1 sl0) ?sx)
                        else Loss (s + w))) \<and>
            (\<forall>k. (\<forall>u. k \<in> set (series_var L) \<and> map_of x0 k = Some u \<longrightarrow>
                     (\<exists>u0. tensor_index u 0 = Inr u0 \<and> map_of (dict_update x1 sl0) k = Some u0)) \<and>
                 (k \<notin> set (series_var L) \<or> map_of x0 k = None \<longrightarrow>
                     map_of (dict_update x1 sl0) k = map_of x1 k))"
  proof (intro allI impI)
    fix ll sl0
    assume ll: "last_loss L = Some ll" and s0: "slice_step_from_inputs 0 ?sx = Inr sl0"
    have d: "distinct (map fst sl0)" using slice_keys [OF s0] dsx by simp
    have m: "map_of (dict_update x1 sl0) = map_of x1 ++ map_of sl0"
      by (rule map_of_dict_update [OF d])
    have e: "ARSeriesLoss_estimate super_estimate L x =
              (case loss_estimate ll (dict_update x1 sl0) of
                 Inl e \<Rightarrow> Inl e
               | Inr w \<Rightarrow>
                   Inr (if return_params L
                        then LossParams (s + w) (dict_update (dict_update x1 sl0) ?sx)
                        else Loss (s + w)))"
      unfolding ARSeriesLoss_estimate_def using assms ll s0
      by (simp add: Let_def series_last_def split: sum.splits)
    have f: "\<forall>k. (\<forall>u. k \<in> set (series_var L) \<and> map_of x0 k = Some u \<longrightarrow>
                     (\<exists>u0. tensor_index u 0 = Inr u0 \<and> map_of (dict_update x1 sl0) k = Some u0)) \<and>
                 (k \<notin> set (series_var L) \<or> map_of x0 k = None \<longrightarrow>
                     map_of (dict_update x1 sl0) k = map_of x1 k)"
    proof (intro allI conjI impI)
      fix k u assume "k \<in> set (series_var L) \<and> map_of x0 k = Some u"
      then have "map_of ?sx k = Some u" by (simp add: msx)
      from slice_Some [OF s0 this] obtain u0 where
        "tensor_index u 0 = Inr u0" "map_of sl0 k = Some u0" by blast
      then show "\<exists>u0. tensor_index u 0 = Inr u0 \<and> map_of (dict_update x1 sl0) k = Some u0"
        using m by (simp add: map_add_def)
    next
      fix k assume "k \<notin> set (series_var L) \<or> map_of x0 k = None"
      then have "map_of ?sx k = None" by (auto simp: msx)
      from slice_None [OF s0 this] show "map_of (dict_update x1 sl0) k = map_of x1 k"
        using m by (simp add: map_add_def)
    qed
    from e f show "ARSeriesLoss_estimate super_estimate L x =
              (case loss_estimate ll (dict_update x1 sl0) of
                 Inl e \<Rightarrow> Inl e
               | Inr w \<Rightarrow>
                   Inr (if return_params L
                        then LossParams (s + w) (dict_update (dict_update x1 sl0) ?sx)
                        else Loss (s + w))) \<and>
            (\<forall>k. (\<forall>u. k \<in> set (series_var L) \<and> map_of x0 k = Some u \<longrightarrow>
                     (\<exists>u0. tensor_index u 0 = Inr u0 \<and> map_of (dict_update x1 sl0) k = Some u0)) \<and>
                 (k \<notin> set (series_var L) \<or> map_of x0 k = None \<longrightarrow>
                     map_of (dict_update x1 sl0) k = map_of x1 k))"
      by blast
  qed
  from last nolast ret show ?thesis by blast
qed

theorem ARSeriesLoss_last_loss_and_params_witness:
  "identity_super series_params_example series_input = Inr series_input \<and>
   series_loop series_params_example
     (get_dict_values series_input (series_var series_params_example))
     [0..<nat (max_iter series_params_example)] series_input 0 = Inr ([(''x'', Arr [Num 2])], 3) \<and>
   last_loss series_params_example = Some slice_value_loss \<and>
   slice_step_from_inputs 0 (get_dict_values series_input (series_var series_params_example))
     = Inr [(''x'', Arr [Num 1])] \<and>
   ARSeriesLoss_estimate identity_super series_params_example series_input =
     Inr (LossParams 4 series_input)"
proof -
  have h1: "identity_super series_params_example series_input = Inr series_input"
    by (simp add: identity_super_def)
  have sx: "get_dict_values series_input (series_var series_params_example) = series_input"
    by (simp add: get_dict_values_def series_params_example_def series_input_def)
  have up: "[0..<nat (max_iter series_params_example)] = [0, 1]"
    by (simp add: series_params_example_def upt_rec)
  have h2: "series_loop series_params_example
     (get_dict_values series_input (series_var series_params_example))
     [0..<nat (max_iter series_params_example)] series_input 0 = Inr ([(''x'', Arr [Num 2])], 3)"
    unfolding sx up
    by (simp add: series_params_example_def series_input_def dict_update_def slice_value_loss_def)
  have ll: "last_loss series_params_example = Some slice_value_loss"
    and rp: "return_params series_params_example"
    by (simp_all add: series_params_example_def)
  have s0: "slice_step_from_inputs 0 (get_dict_values series_input (series_var series_params_example))
     = Inr [(''x'', Arr [Num 1])]"
    unfolding sx by (simp add: series_input_def)
  have w: "loss_estimate slice_value_loss (dict_update [(''x'', Arr [Num 2])] [(''x'', Arr [Num 1])]) = Inr 1"
    by (simp add: slice_value_loss_def dict_update_def)
  have r: "dict_update (dict_update [(''x'', Arr [Num 2])] [(''x'', Arr [Num 1])]) series_input = series_input"
    by (simp add: dict_update_def series_input_def)
  have "ARSeriesLoss_estimate identity_super series_params_example series_input =
     Inr (LossParams 4 series_input)"
    using ARSeriesLoss_last_loss_and_params
      [of identity_super series_params_example series_input series_input "[(''x'', Arr [Num 2])]" 3,
       OF h1 h2, THEN conjunct1, rule_format, OF ll s0, THEN conjunct1] rp w r sx
    by simp
  with h1 h2 ll s0 show ?thesis by blast
qed

text \<open>
  Claim C7.  The three constructors store the step loss and the last loss as given,
  whether present or absent, and reject no combination of them.  An \<open>ARDRAWLoss\<close>
  built without a last loss never returns an estimate: every call ends in an error,
  and when the pre-processing and the step loop complete, the error is the
  \<open>AttributeError\<close> of the unguarded \<^verbatim>\<open>self.last_loss.estimate(x)\<close> after the loop.
\<close>

theorem ARLoss_construction_unvalidated:
  "step_loss (ARDRAWLoss_init sl ll f n rp a b) = sl \<and>
   last_loss (ARDRAWLoss_init sl ll f n rp a b) = ll \<and>
   step_loss (ARLoss_init sl ll f n rp b a) = sl \<and>
   last_loss (ARLoss_init sl ll f n rp b a) = ll \<and>
   (\<exists>L. ARSeriesLoss_init sl ll f n rp (Some sv) b = Inr L \<and> step_loss L = sl \<and> last_loss L = ll) \<and>
   (\<exists>e. ARDRAWLoss_estimate super_estimate (ARDRAWLoss_init sl None f n rp a b) x = Inl e) \<and>
   (\<forall>x0 x1 s. super_estimate (ARDRAWLoss_init sl None f n rp a b) x = Inr x0 \<longrightarrow>
       draw_loop (ARDRAWLoss_init sl None f n rp a b) [0..<nat n] x0 0 = Inr (x1, s) \<longrightarrow>
       ARDRAWLoss_estimate super_estimate (ARDRAWLoss_init sl None f n rp a b) x = Inl AttributeError)"
proof -
  let ?L = "ARDRAWLoss_init sl None f n rp a b"
  have ll: "last_loss ?L = None" and mi: "max_iter ?L = n"
    by (simp_all add: ARDRAWLoss_init_def ARLoss_init_def)
  have fails: "\<exists>e. ARDRAWLoss_estimate super_estimate ?L x = Inl e"
    unfolding ARDRAWLoss_estimate_def using ll
    by (simp split: sum.splits prod.splits)
  have after: "\<forall>x0 x1 s. super_estimate ?L x = Inr x0 \<longrightarrow>
       draw_loop ?L [0..<nat n] x0 0 = Inr (x1, s) \<longrightarrow>
       ARDRAWLoss_estimate super_estimate ?L x = Inl AttributeError"
    unfolding ARDRAWLoss_estimate_def using ll mi by simp
  have series: "\<exists>L. ARSeriesLoss_init sl ll f n rp (Some sv) b = Inr L \<and> step_loss L = sl \<and> last_loss L = ll"
    by (simp add: ARSeriesLoss_init_def ARLoss_init_def arloss.extend_def Let_def)
  show ?thesis
    using fails after series by (simp add: ARDRAWLoss_init_def ARLoss_init_def)
qed

theorem ARLoss_construction_unvalidated_witness:
  "identity_super draw_no_last_example [] = Inr [] \<and>
   draw_loop draw_no_last_example [0..<nat 3] [] 0 = Inr ([], 3) \<and>
   ARDRAWLoss_estimate identity_super draw_no_last_example [] = Inl AttributeError"
proof -
  have h1: "identity_super draw_no_last_example [] = Inr []"
    by (simp add: identity_super_def)
  have up: "[0..<nat 3] = [0, 1, 2]"
    by (simp add: upt_rec)
  have h2: "draw_loop draw_no_last_example [0..<nat 3] [] 0 = Inr ([], 3)"
    unfolding up
    by (simp add: draw_no_last_example_def ARDRAWLoss_init_def ARLoss_init_def const_loss_def)
  from ARLoss_construction_unvalidated
    [of "Some (const_loss 1)" None "\<lambda>i x. Inr x" 3 False None None "[]" identity_super "[]"]
  have "\<forall>x0 x1 s. identity_super draw_no_last_example [] = Inr x0 \<longrightarrow>
       draw_loop draw_no_last_example [0..<nat 3] x0 0 = Inr (x1, s) \<longrightarrow>
       ARDRAWLoss_estimate identity_super draw_no_last_example [] = Inl AttributeError"
    unfolding draw_no_last_example_def by blast
  with h1 h2 show ?thesis by blast
qed

text \<open>
  Claim C10.  \<open>ARDRAWLoss\<close> stores the \<open>input_var\<close> it is given as \<open>initial_var\<close>, and
  declares as \<open>input_var\<close> the \<open>initial_var\<close> it is given, or, when that is \<open>None\<close>,
  the de-duplicated inputs of the last loss followed by those of the step loss.
  \<open>ARLoss\<close> stores both arguments under their own names; \<open>ARSeriesLoss\<close>, which has
  no \<open>initial_var\<close> parameter, stores \<open>input_var\<close> under its own name and leaves
  \<open>initial_var\<close> at \<open>None\<close>.  The derived list has the elements of the concatenation,
  each once.
\<close>

theorem ARDRAWLoss_init_exchanges_vars:
  "initial_var (ARDRAWLoss_init sl ll f n rp initial_var' input_var') = input_var' \<and>
   input_var (ARDRAWLoss_init sl ll f n rp initial_var' input_var') =
     (case initial_var' of
        Some v \<Rightarrow> v
      | None \<Rightarrow> sorted_set_by_index
                  ((case ll of None \<Rightarrow> [] | Some l \<Rightarrow> loss_input_var l) @
                   (case sl of None \<Rightarrow> [] | Some s \<Rightarrow> loss_input_var s))) \<and>
   initial_var (ARLoss_init sl ll f n rp input_var' initial_var') = initial_var' \<and>
   input_var (ARLoss_init sl ll f n rp input_var' initial_var') =
     (case input_var' of
        Some v \<Rightarrow> v
      | None \<Rightarrow> sorted_set_by_index
                  ((case ll of None \<Rightarrow> [] | Some l \<Rightarrow> loss_input_var l) @
                   (case sl of None \<Rightarrow> [] | Some s \<Rightarrow> loss_input_var s))) \<and>
   (\<exists>L. ARSeriesLoss_init sl ll f n rp (Some sv) input_var' = Inr L \<and>
        initial_var L = None \<and>
        input_var L =
          (case input_var' of
             Some v \<Rightarrow> v
           | None \<Rightarrow> sorted_set_by_index
                       ((case ll of None \<Rightarrow> [] | Some l \<Rightarrow> loss_input_var l) @
                        (case sl of None \<Rightarrow> [] | Some s \<Rightarrow> loss_input_var s)))) \<and>
   set (sorted_set_by_index xs) = set xs \<and> distinct (sorted_set_by_index xs)"
  by (simp add: ARDRAWLoss_init_def ARLoss_init_def ARSeriesLoss_init_def arloss.extend_def
      Let_def set_sorted_set_by_index distinct_sorted_set_by_index split: option.splits)

section \<open>Log-likelihood values, tables and tensor shapes\<close>

lemma sum_list_Fin: "(\<Sum>r\<leftarrow>rs. Fin (f r)) = Fin (\<Sum>r\<leftarrow>rs. f r)"
  by (induction rs) (simp_all add: zero_fpnum_def plus_fpnum_def)

lemma set_fins: "set (fins xs) = {r. Fin r \<in> set xs}"
  by (induction xs rule: fins.induct) auto


lemma mset_fins: "mset xs = mset ys \<Longrightarrow> set (fins xs) = set (fins ys)"
  unfolding set_fins by (auto dest: mset_eq_setD)

lemma amax_alt:
  "amax xs =
     (if NaN \<in> set xs then NaN
      else if PosInf \<in> set xs then PosInf
      else if set (fins xs) = {} then NegInf else Fin (Max (set (fins xs))))"
  unfolding amax_def by (cases "fins xs") simp_all

lemma amax_mset: "mset xs = mset ys \<Longrightarrow> amax xs = amax ys"
  unfolding amax_alt using mset_fins [of xs ys] mset_eq_setD [of xs ys] by simp

lemma logsumexp_mset:
  assumes "mset xs = mset ys"
  shows "logsumexp M xs = logsumexp M ys"
proof -
  have s: "\<And>f :: fpnum \<Rightarrow> fpnum. sum_list (map f xs) = sum_list (map f ys)"
  proof -
    fix f :: "fpnum \<Rightarrow> fpnum"
    have "mset (map f xs) = mset (map f ys)" using assms by simp
    then have "sum_mset (mset (map f xs)) = sum_mset (mset (map f ys))" by (rule arg_cong)
    then show "sum_list (map f xs) = sum_list (map f ys)" by (simp only: sum_mset_sum_list)
  qed
  show ?thesis
    unfolding logsumexp_def amax_mset [OF assms] by (simp only: s)
qed















lemma MixtureModel_init_Inr:
  assumes "MixtureModel_init (PyList ds) prior name = Inr m"
  shows "m_distributions m = ds" "m_prior m = prior" "m_hidden_var m = d_var prior"
    "m_name m = name" "\<exists>v. m_var m = [v]" "ds \<noteq> []"
proof -
  from assms have m: "m = \<lparr> m_var = remdups (concat (map d_var ds)), m_name = name,
      m_distributions = ds, m_prior = prior, m_hidden_var = d_var prior \<rparr>"
    and len: "length (remdups (concat (map d_var ds))) = 1"
    by (auto simp: MixtureModel_init_def Let_def split: if_splits option.splits sum.splits)
  show "m_distributions m = ds" "m_prior m = prior" "m_hidden_var m = d_var prior" "m_name m = name"
    by (simp_all add: m)
  from len show "\<exists>v. m_var m = [v]"
    by (cases "remdups (concat (map d_var ds))") (auto simp: m)
  from len show "ds \<noteq> []" by auto
qed

lemma MixtureModel_init_var:
  assumes "MixtureModel_init (PyList ds) prior name = Inr m"
  shows "set (m_var m) = (\<Union>d \<in> set ds. set (d_var d))"
proof -
  from assms have "m_var m = remdups (concat (map d_var ds))"
    by (auto simp: MixtureModel_init_def Let_def split: if_splits option.splits sum.splits)
  then show ?thesis by simp
qed

lemma tensor_index_eye: "k < n \<Longrightarrow> tensor_index (torch_eye n) k = Inr (one_hot n k)"
  by (simp add: torch_eye_def)

lemma broadcast2_single: "broadcast2 f c [p] = Inr (map (\<lambda>u. f u p) c)"
proof (cases "length c = 1")
  case True
  then obtain u where "c = [u]" by (cases c) auto
  then show ?thesis by (simp add: broadcast2_def)
next
  case False
  then show ?thesis by (simp add: broadcast2_def)
qed

lemma all_hidden_loop_run:
  assumes hv: "m_hidden_var m = h # hs"
    and bound: "a + length ds' \<le> K"
    and pr: "\<forall>k<K. d_log_likelihood (m_prior m) [(h, one_hot K k)] = Inr [pl k]"
    and cm: "\<forall>k<length ds'. d_log_likelihood (ds' ! k) x = Inr (cl (a + k))"
  shows "all_hidden_loop m x (torch_eye K) (enumerate a ds') acc =
           Inr (acc @ map (\<lambda>k. map (\<lambda>u. fadd u (pl k)) (cl k)) [a..<a + length ds'])"
  using bound cm
proof (induction ds' arbitrary: a acc)
  case Nil
  then show ?case by simp
next
  case (Cons d ds')
  have aK: "a < K" using Cons.prems(1) by simp
  have p: "d_log_likelihood (m_prior m) [(h, one_hot K a)] = Inr [pl a]" using pr aK by simp
  have c: "d_log_likelihood d x = Inr (cl a)" using Cons.prems(2) by force
  have rest: "\<forall>k<length ds'. d_log_likelihood (ds' ! k) x = Inr (cl (Suc a + k))"
    using Cons.prems(2) by force
  have b: "Suc a + length ds' \<le> K" using Cons.prems(1) by simp
  have up: "[a..<a + length (d # ds')] = a # [Suc a..<Suc a + length ds']"
    using upt_conv_Cons [of a "a + length (d # ds')"] by simp
  show ?case
    unfolding up
    using Cons.IH [OF b rest, of "acc @ [map (\<lambda>u. fadd u (pl a)) (cl a)]"] hv p c
    by (simp add: tensor_index_eye [OF aK] broadcast2_single)
qed

lemma mixture_all_hidden:
  assumes init: "MixtureModel_init (PyList ds) prior name = Inr m"
    and x: "map_of x (hd (m_var m)) = Some t"
    and hv: "d_var prior = h # hs"
    and pr: "\<forall>k<length ds. d_log_likelihood prior [(h, one_hot (length ds) k)] = Inr [pl k]"
    and cm: "\<forall>k<length ds. d_log_likelihood (ds ! k) x = Inr (cl k) \<and> length (cl k) = B"
  shows "log_likelihood_all_hidden m x =
           Inr (map (\<lambda>k. map (\<lambda>u. fadd u (pl k)) (cl k)) [0..<length ds])"
proof -
  note f = MixtureModel_init_Inr [OF init]
  from f(5) obtain v where v: "m_var m = [v]" by blast
  have hv': "m_hidden_var m = h # hs" using f(3) hv by simp
  have pr': "\<forall>k<length ds. d_log_likelihood (m_prior m) [(h, one_hot (length ds) k)] = Inr [pl k]"
    using pr f(2) by simp
  have cm': "\<forall>k<length ds. d_log_likelihood (ds ! k) x = Inr (cl (0 + k))"
    using cm by simp
  have loop: "all_hidden_loop m x (torch_eye (length ds)) (enumerate 0 ds) [] =
           Inr ([] @ map (\<lambda>k. map (\<lambda>u. fadd u (pl k)) (cl k)) [0..<0 + length ds])"
    by (rule all_hidden_loop_run [OF hv' _ pr' cm']) simp
  have ne: "[0..<length ds] \<noteq> []" using f(6) by simp
  then obtain j js where js: "[0..<length ds] = j # js" by (cases "[0..<length ds]") auto
  have lens: "\<forall>k \<in> set [0..<length ds]. length (map (\<lambda>u. fadd u (pl k)) (cl k)) = B"
    using cm by simp
  have stack: "torch_stack (map (\<lambda>k. map (\<lambda>u. fadd u (pl k)) (cl k)) [0..<length ds]) =
           Inr (map (\<lambda>k. map (\<lambda>u. fadd u (pl k)) (cl k)) [0..<length ds])"
    using lens unfolding js by (simp add: torch_stack_def)
  show ?thesis
    unfolding log_likelihood_all_hidden_def using v x loop stack f(1) by simp
qed

lemma torch_logsumexp0_table:
  assumes "0 < K" and "\<forall>k<K. length (row k) = B"
  shows "torch_logsumexp0 M (map row [0..<K]) =
           map (\<lambda>b. logsumexp M (map (\<lambda>k. row k ! b) [0..<K])) [0..<B]"
proof -
  from assms(1) have up: "[0..<K] = 0 # [1..<K]" by (simp add: upt_conv_Cons)
  have "length (row 0) = B" using assms by simp
  then show ?thesis
    unfolding torch_logsumexp0_def by (simp add: up comp_def)
qed

lemma mixture_log_likelihood:
  assumes init: "MixtureModel_init (PyList ds) prior name = Inr m"
    and x: "map_of x (hd (m_var m)) = Some t"
    and hv: "d_var prior = h # hs"
    and pr: "\<forall>k<length ds. d_log_likelihood prior [(h, one_hot (length ds) k)] = Inr [pl k]"
    and cm: "\<forall>k<length ds. d_log_likelihood (ds ! k) x = Inr (cl k) \<and> length (cl k) = B"
  shows "log_likelihood M m x =
           Inr (map (\<lambda>b. logsumexp M (map (\<lambda>k. fadd (cl k ! b) (pl k)) [0..<length ds])) [0..<B])"
proof -
  have K: "0 < length ds" using MixtureModel_init_Inr(6) [OF init] by simp
  have rows: "\<forall>k<length ds. length (map (\<lambda>u. fadd u (pl k)) (cl k)) = B" using cm by simp
  have "torch_logsumexp0 M (map (\<lambda>k. map (\<lambda>u. fadd u (pl k)) (cl k)) [0..<length ds]) =
          map (\<lambda>b. logsumexp M (map (\<lambda>k. map (\<lambda>u. fadd u (pl k)) (cl k) ! b) [0..<length ds])) [0..<B]"
    by (rule torch_logsumexp0_table [OF K rows])
  also have "\<dots> = map (\<lambda>b. logsumexp M (map (\<lambda>k. fadd (cl k ! b) (pl k)) [0..<length ds])) [0..<B]"
    using cm by (intro map_cong refl arg_cong [where f = "logsumexp M"]) simp
  finally show ?thesis
    unfolding log_likelihood_def mixture_all_hidden [OF init x hv pr cm] by simp
qed


lemma swap_index_mset:
  assumes "i < K" "j < K"
  shows "mset (map (\<lambda>k. if k = i then j else if k = j then i else k) [0..<K]) = mset [0..<K]"
proof -
  have "map (\<lambda>k. if k = i then j else if k = j then i else k) [0..<K] =
          [0..<K][j := [0..<K] ! i, i := [0..<K] ! j]"
    using assms by (intro nth_equalityI) (auto simp: nth_list_update)
  then show ?thesis using mset_swap [of i "[0..<K]" j] assms by (simp only: length_upt diff_zero)
qed

lemma mixture_example_init:
  "MixtureModel_init (PyList [point_component ''p_0'' (Fin 200) 0, point_component ''p_1'' (Fin 201) 1])
     (categorical2 (1/3) (2/3)) ''p'' = Inr mixture_example"
proof -
  have v: "remdups (concat (map d_var
      [point_component ''p_0'' (Fin 200) 0, point_component ''p_1'' (Fin 201) 1])) = [''x'']"
    by (simp add: point_component_def)
  have n: "d_distribution_name (categorical2 (1/3) (2/3)) = ''Categorical''"
    and p: "map_of (d_get_params (categorical2 (1/3) (2/3))) ''probs'' = Some (Arr [Num (1/3), Num (2/3)])"
    and z: "d_var (categorical2 (1/3) (2/3)) = [''z'']"
    by (simp_all add: categorical2_def)
  show ?thesis
    unfolding MixtureModel_init_def mixture_example_def Let_def n p z using v by simp
qed

lemma mixture_swapped_example_init:
  "MixtureModel_init
     (PyList ([point_component ''p_0'' (Fin 200) 0, point_component ''p_1'' (Fin 201) 1]
        [0 := [point_component ''p_0'' (Fin 200) 0, point_component ''p_1'' (Fin 201) 1] ! 1,
         1 := [point_component ''p_0'' (Fin 200) 0, point_component ''p_1'' (Fin 201) 1] ! 0]))
     (categorical2 (2/3) (1/3)) ''p'' = Inr mixture_swapped_example"
proof -
  have v: "remdups (concat (map d_var
      [point_component ''p_1'' (Fin 201) 1, point_component ''p_0'' (Fin 200) 0])) = [''x'']"
    by (simp add: point_component_def)
  have n: "d_distribution_name (categorical2 (2/3) (1/3)) = ''Categorical''"
    and p: "map_of (d_get_params (categorical2 (2/3) (1/3))) ''probs'' = Some (Arr [Num (2/3), Num (1/3)])"
    and z: "d_var (categorical2 (2/3) (1/3)) = [''z'']"
    by (simp_all add: categorical2_def)
  have l: "[point_component ''p_0'' (Fin 200) 0, point_component ''p_1'' (Fin 201) 1]
        [0 := [point_component ''p_0'' (Fin 200) 0, point_component ''p_1'' (Fin 201) 1] ! 1,
         1 := [point_component ''p_0'' (Fin 200) 0, point_component ''p_1'' (Fin 201) 1] ! 0] =
        [point_component ''p_1'' (Fin 201) 1, point_component ''p_0'' (Fin 200) 0]"
    by simp
  show ?thesis
    unfolding l MixtureModel_init_def mixture_swapped_example_def Let_def n p z using v by simp
qed


lemma mixture_example_input:
  "map_of mixture_input (hd (m_var mixture_example)) = Some (Arr [Arr [Num 0]])"
  "map_of mixture_input (hd (m_var mixture_swapped_example)) = Some (Arr [Arr [Num 0]])"
  "map_of mixture_input (hd (m_var zero_density_example)) = Some (Arr [Arr [Num 0]])"
  by (simp_all add: mixture_input_def mixture_example_def mixture_swapped_example_def
      zero_density_example_def)

lemma categorical2_var: "d_var (categorical2 p q) = ''z'' # []"
  by (simp add: categorical2_def)

lemma categorical2_log_likelihood:
  "\<forall>k<length [c, d :: unit distribution].
     d_log_likelihood (categorical2 p q) [(''z'', one_hot (length [c, d]) k)] =
       Inr [(\<lambda>k. if k = 0 then Fin (ln p) else Fin (ln q)) k]"
proof (intro allI impI)
  fix k assume "k < length [c, d]"
  then have "k = 0 \<or> k = 1" by auto
  then show "d_log_likelihood (categorical2 p q) [(''z'', one_hot (length [c, d]) k)] =
       Inr [(\<lambda>k. if k = 0 then Fin (ln p) else Fin (ln q)) k]"
    by (auto simp: categorical2_def one_hot_def upt_rec)
qed

lemma point_components_log_likelihood:
  "\<forall>k<length [point_component n0 c0 s0, point_component n1 c1 s1].
     d_log_likelihood ([point_component n0 c0 s0, point_component n1 c1 s1] ! k) x =
       Inr ((\<lambda>k. [if k = 0 then c0 else c1]) k) \<and>
     length ((\<lambda>k. [if k = 0 then c0 else c1]) k) = 1"
proof (intro allI impI)
  fix k assume "k < length [point_component n0 c0 s0, point_component n1 c1 s1]"
  then have "k = 0 \<or> k = 1" by auto
  then show "d_log_likelihood ([point_component n0 c0 s0, point_component n1 c1 s1] ! k) x =
       Inr ((\<lambda>k. [if k = 0 then c0 else c1]) k) \<and>
     length ((\<lambda>k. [if k = 0 then c0 else c1]) k) = 1"
    by (auto simp: point_component_def)
qed
























section \<open>Properties of the mixture model\<close>

text \<open>
  Claim C2.  The constructor tests, in this order: that \<open>distributions\<close> is a list; that
  the prior's \<open>distribution_name\<close> is \<open>Categorical\<close>; that the prior's \<open>probs\<close> has as
  many entries as there are components; that the de-duplicated union of the
  components' variables has exactly one element.  A failed test ends the construction
  with its own error, whatever the later tests would say, and the four errors differ
  (the source raises \<open>ValueError\<close> four times, with no message and with three different
  messages).  When all four tests pass, the construction succeeds and stores the
  components, the prior, the shared variable and the prior's variables.
\<close>

theorem MixtureModel_init_checks:
  "MixtureModel_init NotAList prior name = Inl (ValueError []) \<and>
   (d_distribution_name prior \<noteq> ''Categorical'' \<longrightarrow>
      MixtureModel_init (PyList ds) prior name =
        Inl (ValueError ''The prior must be the categorical distribution.'')) \<and>
   (d_distribution_name prior = ''Categorical'' \<longrightarrow>
    map_of (d_get_params prior) ''probs'' = Some (Arr ps) \<longrightarrow>
      (length ps \<noteq> length ds \<longrightarrow>
         MixtureModel_init (PyList ds) prior name =
           Inl (ValueError
             ''The number of its category must be the same as the length of the distribution list.'')) \<and>
      (length ps = length ds \<longrightarrow> card (\<Union>d \<in> set ds. set (d_var d)) \<noteq> 1 \<longrightarrow>
         MixtureModel_init (PyList ds) prior name =
           Inl (ValueError ''All distributions must have the same variable.'')) \<and>
      (length ps = length ds \<longrightarrow> card (\<Union>d \<in> set ds. set (d_var d)) = 1 \<longrightarrow>
         (\<exists>v. (\<Union>d \<in> set ds. set (d_var d)) = {v} \<and>
              MixtureModel_init (PyList ds) prior name =
                Inr \<lparr> m_var = [v], m_name = name, m_distributions = ds,
                      m_prior = prior, m_hidden_var = d_var prior \<rparr>))) \<and>
   distinct [ValueError [],
             ValueError ''The prior must be the categorical distribution.'',
             ValueError ''The number of its category must be the same as the length of the distribution list.'',
             ValueError ''All distributions must have the same variable.'']"
proof -
  have card: "length (remdups (concat (map d_var ds))) = card (\<Union>d \<in> set ds. set (d_var d))"
    by (simp add: length_remdups_card_conv)
  have single: "card (\<Union>d \<in> set ds. set (d_var d)) = 1 \<Longrightarrow>
      \<exists>v. (\<Union>d \<in> set ds. set (d_var d)) = {v} \<and> remdups (concat (map d_var ds)) = [v]"
  proof -
    assume c: "card (\<Union>d \<in> set ds. set (d_var d)) = 1"
    then have "length (remdups (concat (map d_var ds))) = 1" using card by simp
    then obtain v where v: "remdups (concat (map d_var ds)) = [v]"
      by (cases "remdups (concat (map d_var ds))") auto
    then have "set (remdups (concat (map d_var ds))) = {v}" by simp
    then have "(\<Union>d \<in> set ds. set (d_var d)) = {v}" by simp
    with v show ?thesis by blast
  qed
  show ?thesis
    using card single
    by (auto simp: MixtureModel_init_def Let_def)
qed

theorem MixtureModel_init_checks_witness:
  "d_distribution_name (categorical2 (1/3) (2/3)) = ''Categorical'' \<and>
   map_of (d_get_params (categorical2 (1/3) (2/3))) ''probs'' = Some (Arr [Num (1/3), Num (2/3)]) \<and>
   length [Num (1/3), Num (2/3)] = length [point_component ''p_0'' (Fin 200) 0, point_component ''p_1'' (Fin 201) 1] \<and>
   card (\<Union>d \<in> set [point_component ''p_0'' (Fin 200) 0, point_component ''p_1'' (Fin 201) 1]. set (d_var d)) = 1 \<and>
   MixtureModel_init (PyList [point_component ''p_0'' (Fin 200) 0, point_component ''p_1'' (Fin 201) 1])
     (categorical2 (1/3) (2/3)) ''p'' = Inr mixture_example \<and>
   length [Num (1/3), Num (2/3)] \<noteq> length [point_component ''p_0'' (Fin 200) 0] \<and>
   MixtureModel_init (PyList [point_component ''p_0'' (Fin 200) 0]) (categorical2 (1/3) (2/3)) ''p'' =
     Inl (ValueError
       ''The number of its category must be the same as the length of the distribution list.'')"
proof -
  let ?ds = "[point_component ''p_0'' (Fin 200) 0, point_component ''p_1'' (Fin 201) 1]"
  let ?prior = "categorical2 (1/3) (2/3)"
  have h1: "d_distribution_name ?prior = ''Categorical''" by (simp add: categorical2_def)
  have h2: "map_of (d_get_params ?prior) ''probs'' = Some (Arr [Num (1/3), Num (2/3)])"
    by (simp add: categorical2_def)
  have h3: "length [Num (1/3), Num (2/3)] = length ?ds" by simp
  have u: "(\<Union>d \<in> set ?ds. set (d_var d)) = {''x''}" by (simp add: point_component_def)
  have h4: "card (\<Union>d \<in> set ?ds. set (d_var d)) = 1" unfolding u by simp
  from MixtureModel_init_checks [of ?prior "''p''" ?ds "[Num (1/3), Num (2/3)]",
      THEN conjunct2, THEN conjunct2, THEN conjunct1, rule_format, OF h1 h2,
      THEN conjunct2, THEN conjunct2, rule_format, OF h3 h4]
  obtain v where v: "(\<Union>d \<in> set ?ds. set (d_var d)) = {v}"
    and i: "MixtureModel_init (PyList ?ds) ?prior ''p'' =
              Inr \<lparr> m_var = [v], m_name = ''p'', m_distributions = ?ds,
                    m_prior = ?prior, m_hidden_var = d_var ?prior \<rparr>"
    by blast
  from v u have "v = ''x''" by (simp only: singleton_inject)
  moreover have "d_var ?prior = [''z'']" by (simp add: categorical2_def)
  ultimately have h5: "MixtureModel_init (PyList ?ds) ?prior ''p'' = Inr mixture_example"
    using i by (simp only: mixture_example_def)
  have h6: "length [Num (1/3), Num (2/3)] \<noteq> length [point_component ''p_0'' (Fin 200) 0]" by simp
  have h7: "MixtureModel_init (PyList [point_component ''p_0'' (Fin 200) 0]) ?prior ''p'' =
     Inl (ValueError
       ''The number of its category must be the same as the length of the distribution list.'')"
    by (rule MixtureModel_init_checks [of ?prior "''p''" "[point_component ''p_0'' (Fin 200) 0]"
      "[Num (1/3), Num (2/3)]",
      THEN conjunct2, THEN conjunct2, THEN conjunct1, rule_format, OF h1 h2,
      THEN conjunct1, rule_format, OF h6])
  from h1 h2 h3 h4 h5 h6 h7 show ?thesis by (intro conjI)
qed






text \<open>
  Claim C8.  Let two mixtures be built, the second from the components of the first
  with those at positions \<open>i\<close> and \<open>j\<close> exchanged and from a prior whose log-likelihoods of
  the one-hot encodings of \<open>i\<close> and \<open>j\<close> are exchanged likewise.  Then \<open>log_likelihood\<close>
  returns the same value for both on every input that contains the shared variable
  (rounding aside, which the values here leave out).
\<close>

theorem log_likelihood_swap_invariant:
  assumes "MixtureModel_init (PyList ds) prior name = Inr m"
    and "MixtureModel_init (PyList (ds[i := ds ! j, j := ds ! i])) prior' name' = Inr m'"
    and "i < length ds" and "j < length ds"
    and "map_of x (hd (m_var m)) = Some t"
    and "d_var prior = h # hs" and "d_var prior' = h' # hs'"
    and "\<forall>k<length ds. d_log_likelihood prior [(h, one_hot (length ds) k)] = Inr [pl k]"
    and "\<forall>k<length ds. d_log_likelihood prior' [(h', one_hot (length ds) k)] =
           Inr [pl (if k = i then j else if k = j then i else k)]"
    and "\<forall>k<length ds. d_log_likelihood (ds ! k) x = Inr (cl k) \<and> length (cl k) = B"
  shows "log_likelihood M m' x = log_likelihood M m x"
proof -
  let ?K = "length ds"
  let ?sw = "\<lambda>k. if k = i then j else if k = j then i else k"
  let ?ds' = "ds[i := ds ! j, j := ds ! i]"
  have len: "length ?ds' = ?K" by simp
  have nth: "\<And>k. k < ?K \<Longrightarrow> ?ds' ! k = ds ! ?sw k"
    using assms(3,4) by (auto simp: nth_list_update)
  have swK: "\<And>k. k < ?K \<Longrightarrow> ?sw k < ?K" using assms(3,4) by simp
  have "mset ?ds' = mset ds" using assms(3,4) by (simp add: mset_swap)
  then have sets: "set ?ds' = set ds" by (rule mset_eq_setD)
  have "set (m_var m') = set (m_var m)"
    unfolding MixtureModel_init_var [OF assms(1)] MixtureModel_init_var [OF assms(2)] sets ..
  moreover obtain v where v: "m_var m = [v]" using MixtureModel_init_Inr(5) [OF assms(1)] by blast
  moreover obtain v' where v': "m_var m' = [v']" using MixtureModel_init_Inr(5) [OF assms(2)] by blast
  ultimately have "m_var m' = m_var m" by simp
  then have x': "map_of x (hd (m_var m')) = Some t" using assms(5) by simp
  have pr': "\<forall>k<length ?ds'. d_log_likelihood prior' [(h', one_hot (length ?ds') k)] =
               Inr [(\<lambda>k. pl (?sw k)) k]"
    using assms(9) unfolding len by simp
  have cm': "\<forall>k<length ?ds'. d_log_likelihood (?ds' ! k) x = Inr ((\<lambda>k. cl (?sw k)) k) \<and>
               length ((\<lambda>k. cl (?sw k)) k) = B"
  proof (intro allI impI)
    fix k assume "k < length ?ds'"
    then have k: "k < ?K" by simp
    show "d_log_likelihood (?ds' ! k) x = Inr ((\<lambda>k. cl (?sw k)) k) \<and>
               length ((\<lambda>k. cl (?sw k)) k) = B"
      using assms(10) swK [OF k] unfolding nth [OF k] by blast
  qed
  have l': "log_likelihood M m' x =
      Inr (map (\<lambda>b. logsumexp M (map (\<lambda>k. fadd (cl (?sw k) ! b) (pl (?sw k))) [0..<?K])) [0..<B])"
    using mixture_log_likelihood [OF assms(2) x' assms(7) pr' cm'] unfolding len .
  have l: "log_likelihood M m x =
      Inr (map (\<lambda>b. logsumexp M (map (\<lambda>k. fadd (cl k ! b) (pl k)) [0..<?K])) [0..<B])"
    by (rule mixture_log_likelihood [OF assms(1) assms(5) assms(6) assms(8) assms(10)])
  have perm: "\<And>b. logsumexp M (map (\<lambda>k. fadd (cl (?sw k) ! b) (pl (?sw k))) [0..<?K]) =
                  logsumexp M (map (\<lambda>k. fadd (cl k ! b) (pl k)) [0..<?K])"
  proof -
    fix b
    have e: "map (\<lambda>k. fadd (cl (?sw k) ! b) (pl (?sw k))) [0..<?K] =
            map (\<lambda>k. fadd (cl k ! b) (pl k)) (map ?sw [0..<?K])"
      by (simp only: map_map comp_def)
    have "image_mset (\<lambda>k. fadd (cl k ! b) (pl k)) (mset (map ?sw [0..<?K])) =
            image_mset (\<lambda>k. fadd (cl k ! b) (pl k)) (mset [0..<?K])"
      by (simp only: swap_index_mset [OF assms(3,4)])
    then have "mset (map (\<lambda>k. fadd (cl k ! b) (pl k)) (map ?sw [0..<?K])) =
            mset (map (\<lambda>k. fadd (cl k ! b) (pl k)) [0..<?K])"
      by (simp only: mset_map)
    then show "logsumexp M (map (\<lambda>k. fadd (cl (?sw k) ! b) (pl (?sw k))) [0..<?K]) =
                  logsumexp M (map (\<lambda>k. fadd (cl k ! b) (pl k)) [0..<?K])"
      unfolding e by (rule logsumexp_mset)
  qed
  show ?thesis unfolding l l' by (simp only: perm)
qed

theorem log_likelihood_swap_invariant_witness:
  "MixtureModel_init (PyList [point_component ''p_0'' (Fin 200) 0, point_component ''p_1'' (Fin 201) 1])
     (categorical2 (1/3) (2/3)) ''p'' = Inr mixture_example \<and>
   MixtureModel_init
     (PyList ([point_component ''p_0'' (Fin 200) 0, point_component ''p_1'' (Fin 201) 1]
        [0 := [point_component ''p_0'' (Fin 200) 0, point_component ''p_1'' (Fin 201) 1] ! 1,
         1 := [point_component ''p_0'' (Fin 200) 0, point_component ''p_1'' (Fin 201) 1] ! 0]))
     (categorical2 (2/3) (1/3)) ''p'' = Inr mixture_swapped_example \<and>
   map_of mixture_input (hd (m_var mixture_example)) = Some (Arr [Arr [Num 0]]) \<and>
   m_distributions mixture_swapped_example = [point_component ''p_1'' (Fin 201) 1, point_component ''p_0'' (Fin 200) 0] \<and>
   log_likelihood float32_max mixture_swapped_example mixture_input =
     log_likelihood float32_max mixture_example mixture_input"
proof -
  let ?ds = "[point_component ''p_0'' (Fin 200) 0, point_component ''p_1'' (Fin 201) 1]"
  let ?pl = "\<lambda>k::nat. if k = 0 then Fin (ln (1/3)) else Fin (ln (2/3))"
  let ?cl = "\<lambda>k::nat. [if k = 0 then Fin 200 else Fin 201]"
  have i: "(0::nat) < length ?ds" and j: "(1::nat) < length ?ds" by simp_all
  have pr': "\<forall>k<length ?ds.
      d_log_likelihood (categorical2 (2/3) (1/3)) [(''z'', one_hot (length ?ds) k)] =
        Inr [?pl (if k = 0 then 1 else if k = 1 then 0 else k)]"
  proof (intro allI impI)
    fix k assume "k < length ?ds"
    then have "k = 0 \<or> k = 1" by auto
    then show "d_log_likelihood (categorical2 (2/3) (1/3)) [(''z'', one_hot (length ?ds) k)] =
        Inr [?pl (if k = 0 then 1 else if k = 1 then 0 else k)]"
      using categorical2_log_likelihood [of "point_component ''p_0'' (Fin 200) 0" "point_component ''p_1'' (Fin 201) 1" "2/3" "1/3"]
      by auto
  qed
  have "log_likelihood float32_max mixture_swapped_example mixture_input =
          log_likelihood float32_max mixture_example mixture_input"
    by (rule log_likelihood_swap_invariant
      [of ?ds "categorical2 (1/3) (2/3)" "''p''" mixture_example 0 1 "categorical2 (2/3) (1/3)" "''p''"
          mixture_swapped_example mixture_input "Arr [Arr [Num 0]]" "''z''" "[]" "''z''" "[]" ?pl ?cl 1 float32_max,
       OF mixture_example_init mixture_swapped_example_init i j mixture_example_input(1)
          categorical2_var categorical2_var categorical2_log_likelihood pr'
          point_components_log_likelihood])
  moreover have "m_distributions mixture_swapped_example =
      [point_component ''p_1'' (Fin 201) 1, point_component ''p_0'' (Fin 200) 0]"
    by (simp add: mixture_swapped_example_def)
  ultimately show ?thesis
    using mixture_example_init mixture_swapped_example_init mixture_example_input(1) by blast
qed



end
